theory Spec2Isabelle
  imports Main "HOL-Library.Word"
begin

unbundle bit_operations_syntax

section \<open>The LRU state cache of turbo/shards/state\_cache.go\<close>

text \<open>
  The cache holds pointers to items in two B-trees (\<open>readWrites\<close>, \<open>writes\<close>) and in
  one backing array shared by two binary heaps. The model keeps an explicit store of
  allocated items (\<open>mem\<close>, a pointer is an index into it), so that an update made through
  one structure is seen through the others, as it is through a Go pointer.
  Go's \<open>int\<close> is modelled as an unbounded \<open>int\<close>: every integer of this file is a
  sequence number, a position or a length, bounded by the number of calls made.
\<close>

subsection \<open>Values\<close>

type_synonym byte = "8 word"

type_synonym ref = nat

text \<open>
  Modelled from the spec: the type \<open>accounts.Account\<close> is not part of the sources at hand;
  the spec calls it an opaque value that is byte-copied by its copy hook. \<open>Copy\<close> stores the
  given value, \<open>Reset\<close> stores the zero value.
\<close>

datatype Account = Account (body: "byte list")

definition Account_zero :: Account where
  "Account_zero = Account []"

text \<open>Panics of the Go runtime and the explicit \<open>panic\<close> calls of the source.\<close>

datatype panic =
    IndexOutOfRange
  | NilDereference
  | TypeAssertion
  | SliceBoundsOutOfRange
  | NegativeLen
  | BadDegree
  | Explicit string

type_synonym 'a res = "panic + 'a"

definition bindE :: "'a res \<Rightarrow> ('a \<Rightarrow> 'b res) \<Rightarrow> 'b res" where
  "bindE m f = (case m of Inl e \<Rightarrow> Inl e | Inr x \<Rightarrow> f x)"

text \<open>Go's \<open>/\<close> on integers truncates towards zero.\<close>

definition quo :: "int \<Rightarrow> int \<Rightarrow> int" where
  "quo a b = sgn a * sgn b * (\<bar>a\<bar> div \<bar>b\<bar>)"

text \<open>
  The built-in \<open>copy(dst, src)\<close> on byte slices: the first \<open>min (len dst) (len src)\<close>
  bytes of \<open>dst\<close> are overwritten, the rest of \<open>dst\<close> stays.
\<close>

definition go_copy :: "'a list \<Rightarrow> 'a list \<Rightarrow> 'a list" where
  "go_copy dst src = take (length dst) src @ drop (length src) dst"

text \<open>The zero values of \<open>common.Address\<close> (20 bytes) and \<open>common.Hash\<close> (32 bytes).\<close>

definition Address_zero :: "byte list" where
  "Address_zero = replicate 20 0"

definition Hash_zero :: "byte list" where
  "Hash_zero = replicate 32 0"

text \<open>\<open>bytes.Compare\<close>: lexicographic comparison, \<open>-1\<close>, \<open>0\<close> or \<open>1\<close>.\<close>

fun bytes_Compare :: "byte list \<Rightarrow> byte list \<Rightarrow> int" where
  "bytes_Compare [] [] = 0"
| "bytes_Compare [] (y # ys) = -1"
| "bytes_Compare (x # xs) [] = 1"
| "bytes_Compare (x # xs) (y # ys) =
     (if x < y then -1 else if y < x then 1 else bytes_Compare xs ys)"

subsection \<open>Cache items\<close>

definition ModifiedFlag :: "16 word" where
  "ModifiedFlag = 1"

definition DeletedFlag :: "16 word" where
  "DeletedFlag = 2"

datatype CacheItem =
    AccountCacheItem (address: "byte list") (account: Account)
      (sequence: int) (queuePos: int) (flags: "16 word")
  | StorageCacheItem (address: "byte list") (incarnation: "64 word") (location: "byte list")
      (val: "byte list") (sequence: int) (queuePos: int) (flags: "16 word")
  | CodeCacheItem (address: "byte list") (code: "byte list option")
      (sequence: int) (queuePos: int) (flags: "16 word")

text \<open>
  The three \<open>Less\<close> methods, one block of equations per receiver type, one equation per
  case of the type switch. The \<open>default\<close> branches cannot be reached: the three
  constructors are the only implementations of \<open>CacheItem\<close>.
\<close>

fun Less :: "CacheItem \<Rightarrow> CacheItem \<Rightarrow> bool" where
  "Less (AccountCacheItem a _ _ _ _) (AccountCacheItem b _ _ _ _) =
     (bytes_Compare a b < 0)"
| "Less (AccountCacheItem a _ _ _ _) (StorageCacheItem b _ _ _ _ _ _) =
     (let c = bytes_Compare a b in if c = 0 then True else c < 0)"
| "Less (AccountCacheItem a _ _ _ _) (CodeCacheItem b _ _ _ _) =
     (let c = bytes_Compare a b in if c = 0 then True else c < 0)"
| "Less (StorageCacheItem a _ _ _ _ _ _) (AccountCacheItem b _ _ _ _) =
     (let c = bytes_Compare a b in if c = 0 then False else c < 0)"
| "Less (StorageCacheItem a inc loc _ _ _ _) (StorageCacheItem b inc' loc' _ _ _ _) =
     (let c = bytes_Compare a b in
      if c = 0 then (if inc = inc' then bytes_Compare loc loc' < 0 else inc < inc')
      else c < 0)"
| "Less (StorageCacheItem a _ _ _ _ _ _) (CodeCacheItem b _ _ _ _) =
     (let c = bytes_Compare a b in if c = 0 then False else c < 0)"
| "Less (CodeCacheItem a _ _ _ _) (AccountCacheItem b _ _ _ _) =
     (let c = bytes_Compare a b in if c = 0 then False else c < 0)"
| "Less (CodeCacheItem a _ _ _ _) (StorageCacheItem b _ _ _ _ _ _) =
     (let c = bytes_Compare a b in if c = 0 then True else c < 0)"
| "Less (CodeCacheItem a _ _ _ _) (CodeCacheItem b _ _ _ _) =
     (bytes_Compare a b < 0)"

definition GetSequence :: "CacheItem \<Rightarrow> int" where
  "GetSequence it = sequence it"

fun SetSequence :: "int \<Rightarrow> CacheItem \<Rightarrow> CacheItem" where
  "SetSequence s (AccountCacheItem a acc _ q f) = AccountCacheItem a acc s q f"
| "SetSequence s (StorageCacheItem a i l v _ q f) = StorageCacheItem a i l v s q f"
| "SetSequence s (CodeCacheItem a c _ q f) = CodeCacheItem a c s q f"

definition GetSize :: "CacheItem \<Rightarrow> int" where
  "GetSize it = 1"

definition GetQueuePos :: "CacheItem \<Rightarrow> int" where
  "GetQueuePos it = queuePos it"

fun SetQueuePos :: "int \<Rightarrow> CacheItem \<Rightarrow> CacheItem" where
  "SetQueuePos p (AccountCacheItem a acc s _ f) = AccountCacheItem a acc s p f"
| "SetQueuePos p (StorageCacheItem a i l v s _ f) = StorageCacheItem a i l v s p f"
| "SetQueuePos p (CodeCacheItem a c s _ f) = CodeCacheItem a c s p f"

definition HasFlag :: "CacheItem \<Rightarrow> 16 word \<Rightarrow> bool" where
  "HasFlag it flag = (flags it AND flag \<noteq> 0)"

fun SetFlagsTo :: "16 word \<Rightarrow> CacheItem \<Rightarrow> CacheItem" where
  "SetFlagsTo g (AccountCacheItem a acc s q _) = AccountCacheItem a acc s q g"
| "SetFlagsTo g (StorageCacheItem a i l v s q _) = StorageCacheItem a i l v s q g"
| "SetFlagsTo g (CodeCacheItem a c s q _) = CodeCacheItem a c s q g"

definition SetFlags :: "16 word \<Rightarrow> CacheItem \<Rightarrow> CacheItem" where
  "SetFlags g it = SetFlagsTo (flags it OR g) it"

definition ClearFlags :: "16 word \<Rightarrow> CacheItem \<Rightarrow> CacheItem" where
  "ClearFlags g it = SetFlagsTo (flags it AND NOT g) it"

subsection \<open>The cache state\<close>

text \<open>
  \<open>mem\<close> is the store of allocated items. A B-tree of \<open>github.com/google/btree\<close> is
  modelled by the ascending list of the pointers it holds; the items are compared through
  the store with \<open>Less\<close>, as the tree does. \<open>items\<close> is the backing array that
  \<open>readQueue.items\<close> and \<open>writeQueue.items\<close> both refer to; a slot holds \<open>None\<close> for
  a nil interface value. \<open>sc_sequence\<close> is the field \<open>sequence\<close> of the source.
\<close>

record StateCache =
  mem :: "CacheItem list"
  readWrites :: "ref list"
  writes :: "ref list"
  items :: "ref option list"
  readQueue_end :: int
  writeQueue_start :: int
  limitReads :: int
  limitWrites :: int
  sc_sequence :: int

definition slot :: "StateCache \<Rightarrow> int \<Rightarrow> ref option res" where
  "slot sc i =
     (if 0 \<le> i \<and> i < int (length (items sc)) then Inr (items sc ! nat i)
      else Inl IndexOutOfRange)"

definition deref :: "ref option \<Rightarrow> ref res" where
  "deref x = (case x of None \<Rightarrow> Inl NilDereference | Some r \<Rightarrow> Inr r)"

definition update_item :: "ref \<Rightarrow> (CacheItem \<Rightarrow> CacheItem) \<Rightarrow> StateCache \<Rightarrow> StateCache" where
  "update_item r f sc = sc\<lparr>mem := (mem sc)[r := f (mem sc ! r)]\<rparr>"

subsection \<open>The B-tree operations used by the cache\<close>

fun btree_Get :: "CacheItem list \<Rightarrow> ref list \<Rightarrow> CacheItem \<Rightarrow> ref option" where
  "btree_Get m [] key = None"
| "btree_Get m (r # rs) key =
     (if Less (m ! r) key then btree_Get m rs key
      else if Less key (m ! r) then None
      else Some r)"

fun btree_ReplaceOrInsert :: "CacheItem list \<Rightarrow> ref list \<Rightarrow> ref \<Rightarrow> ref list" where
  "btree_ReplaceOrInsert m [] x = [x]"
| "btree_ReplaceOrInsert m (r # rs) x =
     (if Less (m ! r) (m ! x) then r # btree_ReplaceOrInsert m rs x
      else if Less (m ! x) (m ! r) then x # r # rs
      else x # rs)"

fun btree_remove :: "CacheItem list \<Rightarrow> ref list \<Rightarrow> CacheItem \<Rightarrow> ref list" where
  "btree_remove m [] key = []"
| "btree_remove m (r # rs) key =
     (if Less (m ! r) key then r # btree_remove m rs key
      else if Less key (m ! r) then r # rs
      else rs)"

text \<open>
  \<open>Delete\<close> returns at once on an empty tree; on a tree with items it searches with
  \<open>item.Less\<close>, a method call that panics on a nil interface value.
\<close>

definition btree_Delete :: "CacheItem list \<Rightarrow> ref list \<Rightarrow> ref option \<Rightarrow> ref list res" where
  "btree_Delete m t x =
     (if t = [] then Inr t
      else bindE (deref x) (\<lambda>r. Inr (btree_remove m t (m ! r))))"

subsection \<open>The two heaps in one array\<close>

datatype heap = ReadQueue | WriteQueue

definition ReadHeap_Len :: "StateCache \<Rightarrow> int" where
  "ReadHeap_Len sc = readQueue_end sc"

definition ReadHeap_Less :: "int \<Rightarrow> int \<Rightarrow> StateCache \<Rightarrow> bool res" where
  "ReadHeap_Less i j sc =
     bindE (bindE (slot sc i) deref) (\<lambda>a.
     bindE (bindE (slot sc j) deref) (\<lambda>b.
     Inr (GetSequence (mem sc ! a) < GetSequence (mem sc ! b))))"

definition ReadHeap_Swap :: "int \<Rightarrow> int \<Rightarrow> StateCache \<Rightarrow> StateCache res" where
  "ReadHeap_Swap i j sc =
     bindE (bindE (slot sc i) deref) (\<lambda>a.
     let sc1 = update_item a (SetQueuePos j) sc in
     bindE (bindE (slot sc1 j) deref) (\<lambda>b.
     let sc2 = update_item b (SetQueuePos i) sc1 in
     Inr (sc2\<lparr>items := (items sc2)[nat i := items sc2 ! nat j, nat j := items sc2 ! nat i]\<rparr>)))"

definition ReadHeap_Push :: "ref \<Rightarrow> StateCache \<Rightarrow> StateCache res" where
  "ReadHeap_Push x sc =
     (let e = readQueue_end sc in
      if 0 \<le> e \<and> e < int (length (items sc))
      then Inr (sc\<lparr>items := (items sc)[nat e := Some x], readQueue_end := e + 1\<rparr>)
      else Inl IndexOutOfRange)"

definition ReadHeap_Pop :: "StateCache \<Rightarrow> (ref option \<times> StateCache) res" where
  "ReadHeap_Pop sc =
     (let sc1 = sc\<lparr>readQueue_end := readQueue_end sc - 1\<rparr> in
      bindE (slot sc1 (readQueue_end sc1)) (\<lambda>x. Inr (x, sc1)))"

definition WriteHeap_Len :: "StateCache \<Rightarrow> int" where
  "WriteHeap_Len sc = int (length (items sc)) - writeQueue_start sc"

definition WriteHeap_Less :: "int \<Rightarrow> int \<Rightarrow> StateCache \<Rightarrow> bool res" where
  "WriteHeap_Less i j sc =
     (let l = int (length (items sc)) - 1 in
      bindE (bindE (slot sc (l - i)) deref) (\<lambda>a.
      bindE (bindE (slot sc (l - j)) deref) (\<lambda>b.
      Inr (GetSequence (mem sc ! a) < GetSequence (mem sc ! b)))))"

text \<open>
  \<open>WriteHeap.Swap\<close> sets the queue positions through \<open>wh.items[i]\<close> and
  \<open>wh.items[j]\<close>, the indices as they are passed in, and only then reflects \<open>i\<close> and
  \<open>j\<close> for the exchange of the two slots.
\<close>

definition WriteHeap_Swap :: "int \<Rightarrow> int \<Rightarrow> StateCache \<Rightarrow> StateCache res" where
  "WriteHeap_Swap i j sc =
     bindE (bindE (slot sc i) deref) (\<lambda>a.
     let sc1 = update_item a (SetQueuePos j) sc in
     bindE (bindE (slot sc1 j) deref) (\<lambda>b.
     let sc2 = update_item b (SetQueuePos i) sc1;
         l = int (length (items sc2)) - 1;
         i' = l - i;
         j' = l - j in
     bindE (slot sc2 j') (\<lambda>y.
     bindE (slot sc2 i') (\<lambda>x.
     Inr (sc2\<lparr>items := (items sc2)[nat i' := y, nat j' := x]\<rparr>)))))"

definition WriteHeap_Push :: "ref \<Rightarrow> StateCache \<Rightarrow> StateCache res" where
  "WriteHeap_Push x sc =
     (let s = writeQueue_start sc - 1 in
      if 0 \<le> s \<and> s < int (length (items sc))
      then Inr (sc\<lparr>items := (items sc)[nat s := Some x], writeQueue_start := s\<rparr>)
      else Inl IndexOutOfRange)"

definition WriteHeap_Pop :: "StateCache \<Rightarrow> (ref option \<times> StateCache) res" where
  "WriteHeap_Pop sc =
     (let sc1 = sc\<lparr>writeQueue_start := writeQueue_start sc + 1\<rparr> in
      bindE (slot sc1 (writeQueue_start sc1 - 1)) (\<lambda>x. Inr (x, sc1)))"

text \<open>The methods of \<open>heap.Interface\<close>, dispatched on the heap they are called on.\<close>

fun h_Len :: "heap \<Rightarrow> StateCache \<Rightarrow> int" where
  "h_Len ReadQueue sc = ReadHeap_Len sc"
| "h_Len WriteQueue sc = WriteHeap_Len sc"

fun h_Less :: "heap \<Rightarrow> int \<Rightarrow> int \<Rightarrow> StateCache \<Rightarrow> bool res" where
  "h_Less ReadQueue i j sc = ReadHeap_Less i j sc"
| "h_Less WriteQueue i j sc = WriteHeap_Less i j sc"

fun h_Swap :: "heap \<Rightarrow> int \<Rightarrow> int \<Rightarrow> StateCache \<Rightarrow> StateCache res" where
  "h_Swap ReadQueue i j sc = ReadHeap_Swap i j sc"
| "h_Swap WriteQueue i j sc = WriteHeap_Swap i j sc"

fun h_Push :: "heap \<Rightarrow> ref \<Rightarrow> StateCache \<Rightarrow> StateCache res" where
  "h_Push ReadQueue x sc = ReadHeap_Push x sc"
| "h_Push WriteQueue x sc = WriteHeap_Push x sc"

fun h_Pop :: "heap \<Rightarrow> StateCache \<Rightarrow> (ref option \<times> StateCache) res" where
  "h_Pop ReadQueue sc = ReadHeap_Pop sc"
| "h_Pop WriteQueue sc = WriteHeap_Pop sc"

subsection \<open>The functions of Go's container/heap\<close>

lemma bindE_cong [fundef_cong]:
  "m = m' \<Longrightarrow> (\<And>x. m' = Inr x \<Longrightarrow> f x = f' x) \<Longrightarrow> bindE m f = bindE m' f'"
  by (cases m') (simp_all add: bindE_def)

function heap_up :: "heap \<Rightarrow> int \<Rightarrow> StateCache \<Rightarrow> StateCache res" where
  "heap_up h j sc =
     (let i = quo (j - 1) 2 in
      if i = j then Inr sc
      else bindE (h_Less h j i sc) (\<lambda>lt.
           if \<not> lt then Inr sc
           else bindE (h_Swap h i j sc) (\<lambda>sc'. heap_up h i sc')))"
  by pat_completeness auto
termination
proof (relation "measure (\<lambda>(h, j, sc). nat \<bar>j\<bar>)")
  show "wf (measure (\<lambda>(h, j, sc). nat \<bar>j\<bar>))"
    by simp
next
  fix h :: heap and j :: int and sc :: StateCache and i lt sc'
  assume "i = quo (j - 1) 2" and "i \<noteq> j"
  then have "\<bar>i\<bar> < \<bar>j\<bar>"
    by (auto simp: quo_def sgn_if abs_if split: if_splits)
  then show "((h, i, sc'), (h, j, sc)) \<in> measure (\<lambda>(h, j, sc). nat \<bar>j\<bar>)"
    by simp
qed

declare heap_up.simps [simp del]

function down_loop :: "heap \<Rightarrow> int \<Rightarrow> int \<Rightarrow> StateCache \<Rightarrow> (int \<times> StateCache) res" where
  "down_loop h i n sc =
     (let j1 = 2 * i + 1 in
      if j1 \<ge> n \<or> j1 < 0 then Inr (i, sc)
      else bindE (if j1 + 1 < n then h_Less h (j1 + 1) j1 sc else Inr False) (\<lambda>right.
           let j = (if right then j1 + 1 else j1) in
           bindE (h_Less h j i sc) (\<lambda>lt.
           if \<not> lt then Inr (i, sc)
           else bindE (h_Swap h i j sc) (\<lambda>sc'. down_loop h j n sc'))))"
  by pat_completeness auto
termination
  by (relation "measure (\<lambda>(h, i, n, sc). nat (n - i))") auto

declare down_loop.simps [simp del]

definition heap_down :: "heap \<Rightarrow> int \<Rightarrow> int \<Rightarrow> StateCache \<Rightarrow> (bool \<times> StateCache) res" where
  "heap_down h i0 n sc = bindE (down_loop h i0 n sc) (\<lambda>(i, sc'). Inr (i > i0, sc'))"

function init_loop :: "heap \<Rightarrow> int \<Rightarrow> int \<Rightarrow> StateCache \<Rightarrow> StateCache res" where
  "init_loop h i n sc =
     (if i \<ge> 0 then bindE (heap_down h i n sc) (\<lambda>(b, sc'). init_loop h (i - 1) n sc')
      else Inr sc)"
  by pat_completeness auto
termination
  by (relation "measure (\<lambda>(h, i, n, sc). nat (i + 1))") auto

declare init_loop.simps [simp del]

definition heap_Init :: "heap \<Rightarrow> StateCache \<Rightarrow> StateCache res" where
  "heap_Init h sc = (let n = h_Len h sc in init_loop h (quo n 2 - 1) n sc)"

definition heap_Push :: "heap \<Rightarrow> ref \<Rightarrow> StateCache \<Rightarrow> StateCache res" where
  "heap_Push h x sc = bindE (h_Push h x sc) (\<lambda>sc'. heap_up h (h_Len h sc' - 1) sc')"

definition heap_Pop :: "heap \<Rightarrow> StateCache \<Rightarrow> (ref option \<times> StateCache) res" where
  "heap_Pop h sc =
     (let n = h_Len h sc - 1 in
      bindE (h_Swap h 0 n sc) (\<lambda>sc1.
      bindE (heap_down h 0 n sc1) (\<lambda>(b, sc2).
      h_Pop h sc2)))"

definition heap_Fix :: "heap \<Rightarrow> int \<Rightarrow> StateCache \<Rightarrow> StateCache res" where
  "heap_Fix h i sc =
     bindE (heap_down h i (h_Len h sc) sc) (\<lambda>(moved, sc1).
     if \<not> moved then heap_up h i sc1 else Inr sc1)"

definition heap_Remove :: "heap \<Rightarrow> int \<Rightarrow> StateCache \<Rightarrow> (ref option \<times> StateCache) res" where
  "heap_Remove h i sc =
     (let n = h_Len h sc - 1 in
      bindE (if n \<noteq> i
             then bindE (h_Swap h i n sc) (\<lambda>sc1.
                  bindE (heap_down h i n sc1) (\<lambda>(moved, sc2).
                  if \<not> moved then heap_up h i sc2 else Inr sc2))
             else Inr sc) (\<lambda>sc3.
      h_Pop h sc3))"

subsection \<open>Construction and lookup\<close>

text \<open>
  \<open>btree.New\<close> panics on a degree below 2, \<open>make\<close> on a negative length.
\<close>

definition NewStateCache :: "int \<Rightarrow> int \<Rightarrow> int \<Rightarrow> StateCache res" where
  "NewStateCache degree limitReads' limitWrites' =
     (if degree \<le> 1 then Inl BadDegree
      else if limitReads' + limitWrites' < 0 then Inl NegativeLen
      else Inr \<lparr>mem = [], readWrites = [], writes = [],
                items = replicate (nat (limitReads' + limitWrites')) None,
                readQueue_end = 0,
                writeQueue_start = limitReads' + limitWrites',
                limitReads = limitReads', limitWrites = limitWrites',
                sc_sequence = 0\<rparr>)"

definition get :: "StateCache \<Rightarrow> CacheItem \<Rightarrow> ref option \<times> bool" where
  "get sc key =
     (case btree_Get (mem sc) (readWrites sc) key of
        None \<Rightarrow> (None, False)
      | Some item \<Rightarrow>
          if HasFlag (mem sc ! item) DeletedFlag then (None, False) else (Some item, True))"

text \<open>The type assertions \<open>item.(*AccountCacheItem)\<close> and its two siblings.\<close>

definition as_Account :: "StateCache \<Rightarrow> ref option \<Rightarrow> ref res" where
  "as_Account sc x =
     (case x of
        None \<Rightarrow> Inl TypeAssertion
      | Some r \<Rightarrow> (case mem sc ! r of AccountCacheItem _ _ _ _ _ \<Rightarrow> Inr r | _ \<Rightarrow> Inl TypeAssertion))"

definition as_Storage :: "StateCache \<Rightarrow> ref option \<Rightarrow> ref res" where
  "as_Storage sc x =
     (case x of
        None \<Rightarrow> Inl TypeAssertion
      | Some r \<Rightarrow> (case mem sc ! r of StorageCacheItem _ _ _ _ _ _ _ \<Rightarrow> Inr r | _ \<Rightarrow> Inl TypeAssertion))"

definition as_Code :: "StateCache \<Rightarrow> ref option \<Rightarrow> ref res" where
  "as_Code sc x =
     (case x of
        None \<Rightarrow> Inl TypeAssertion
      | Some r \<Rightarrow> (case mem sc ! r of CodeCacheItem _ _ _ _ _ \<Rightarrow> Inr r | _ \<Rightarrow> Inl TypeAssertion))"

text \<open>
  The key-only items that the lookups and the write functions probe the trees with: a
  zero item whose key fields are filled by \<open>copy\<close>.
\<close>

definition account_key :: "byte list \<Rightarrow> CacheItem" where
  "account_key addr = AccountCacheItem (go_copy Address_zero addr) Account_zero 0 0 0"

definition storage_key :: "byte list \<Rightarrow> 64 word \<Rightarrow> byte list \<Rightarrow> CacheItem" where
  "storage_key addr inc loc =
     StorageCacheItem (go_copy Address_zero addr) inc (go_copy Hash_zero loc) Hash_zero 0 0 0"

definition code_key :: "byte list \<Rightarrow> CacheItem" where
  "code_key addr = CodeCacheItem (go_copy Address_zero addr) None 0 0 0"

text \<open>
  The lookups return the pair of the source: the value (\<open>None\<close> for \<open>nil\<close>) and the
  found flag.
\<close>

definition GetAccount :: "byte list \<Rightarrow> StateCache \<Rightarrow> (Account option \<times> bool) res" where
  "GetAccount addr sc =
     (let key = account_key addr;
          (item, ok) = get sc key in
      if ok then bindE (as_Account sc item) (\<lambda>r. Inr (Some (account (mem sc ! r)), True))
      else Inr (None, False))"

definition GetStorage ::
  "byte list \<Rightarrow> 64 word \<Rightarrow> byte list \<Rightarrow> StateCache \<Rightarrow> (byte list option \<times> bool) res" where
  "GetStorage addr inc loc sc =
     (let key = storage_key addr inc loc;
          (item, ok) = get sc key in
      if ok then bindE (as_Storage sc item) (\<lambda>r. Inr (Some (val (mem sc ! r)), True))
      else Inr (None, False))"

definition GetCode :: "byte list \<Rightarrow> StateCache \<Rightarrow> (byte list option \<times> bool) res" where
  "GetCode addr sc =
     (let key = code_key addr;
          (item, ok) = get sc key in
      if ok then bindE (as_Code sc item) (\<lambda>r. Inr (code (mem sc ! r), True))
      else Inr (None, True))"

subsection \<open>Read insertion\<close>

text \<open>A new item is stored at a fresh address.\<close>

definition alloc :: "CacheItem \<Rightarrow> StateCache \<Rightarrow> ref \<times> StateCache" where
  "alloc it sc = (length (mem sc), sc\<lparr>mem := mem sc @ [it]\<rparr>)"

definition setRead :: "CacheItem \<Rightarrow> StateCache \<Rightarrow> StateCache res" where
  "setRead it sc =
     (if btree_Get (mem sc) (readWrites sc) it \<noteq> None
      then Inl (Explicit ''item must not be present in the cache before doing setRead'')
      else
        let (item, sc1) = alloc it sc;
            sc2 = update_item item (SetQueuePos 0) sc1;
            sc3 = update_item item (SetSequence (sc_sequence sc2)) sc2;
            sc4 = sc3\<lparr>readWrites := btree_ReplaceOrInsert (mem sc3) (readWrites sc3) item\<rparr> in
        if ReadHeap_Len sc4 \<ge> limitReads sc4
        then
          bindE (slot sc4 0) (\<lambda>victim.
          bindE (btree_Delete (mem sc4) (readWrites sc4) victim) (\<lambda>t.
          let sc5 = sc4\<lparr>readWrites := t\<rparr>;
              sc6 = sc5\<lparr>items := (items sc5)[0 := Some item]\<rparr> in
          heap_Fix ReadQueue 0 sc6))
        else heap_Push ReadQueue item sc4)"

definition SetAccountRead :: "byte list \<Rightarrow> Account \<Rightarrow> StateCache \<Rightarrow> StateCache res" where
  "SetAccountRead addr acct sc =
     setRead (AccountCacheItem (go_copy Address_zero addr) acct 0 0 0) sc"

definition SetAccountAbsent :: "byte list \<Rightarrow> StateCache \<Rightarrow> StateCache res" where
  "SetAccountAbsent addr sc =
     setRead (AccountCacheItem (go_copy Address_zero addr) Account_zero 0 0 DeletedFlag) sc"

definition SetStorageRead ::
  "byte list \<Rightarrow> 64 word \<Rightarrow> byte list \<Rightarrow> byte list \<Rightarrow> StateCache \<Rightarrow> StateCache res" where
  "SetStorageRead addr inc loc v sc =
     setRead (StorageCacheItem (go_copy Address_zero addr) inc (go_copy Hash_zero loc)
                (go_copy Hash_zero v) 0 0 0) sc"

definition SetStorageAbsent ::
  "byte list \<Rightarrow> 64 word \<Rightarrow> byte list \<Rightarrow> StateCache \<Rightarrow> StateCache res" where
  "SetStorageAbsent addr inc loc sc =
     setRead (StorageCacheItem (go_copy Address_zero addr) inc (go_copy Hash_zero loc)
                Hash_zero 0 0 DeletedFlag) sc"

definition SetCodeRead :: "byte list \<Rightarrow> byte list \<Rightarrow> StateCache \<Rightarrow> StateCache res" where
  "SetCodeRead addr c sc =
     setRead (CodeCacheItem (go_copy Address_zero addr) (Some c) 0 0 0) sc"

definition SetCodeAbsent :: "byte list \<Rightarrow> StateCache \<Rightarrow> StateCache res" where
  "SetCodeAbsent addr sc =
     setRead (CodeCacheItem (go_copy Address_zero addr) None 0 0 DeletedFlag) sc"

subsection \<open>Write insertion and deletion\<close>

text \<open>Assignments to the value fields of an item.\<close>

fun set_account :: "Account \<Rightarrow> CacheItem \<Rightarrow> CacheItem" where
  "set_account acct (AccountCacheItem a _ s q f) = AccountCacheItem a acct s q f"
| "set_account acct it = it"

fun set_value :: "byte list \<Rightarrow> CacheItem \<Rightarrow> CacheItem" where
  "set_value v (StorageCacheItem a i l _ s q f) = StorageCacheItem a i l v s q f"
| "set_value v it = it"

text \<open>\<open>copy(existing.value[:], value)\<close>\<close>

definition copy_value :: "byte list \<Rightarrow> CacheItem \<Rightarrow> CacheItem" where
  "copy_value v it = set_value (go_copy (val it) v) it"

fun set_code :: "byte list option \<Rightarrow> CacheItem \<Rightarrow> CacheItem" where
  "set_code c (CodeCacheItem a _ s q f) = CodeCacheItem a c s q f"
| "set_code c it = it"

text \<open>The conversion \<open>heap.Pop(&sc.readQueue).(btree.Item)\<close> panics on nil.\<close>

definition as_Item :: "ref option \<Rightarrow> ref option res" where
  "as_Item x = (case x of None \<Rightarrow> Inl TypeAssertion | Some r \<Rightarrow> Inr (Some r))"

text \<open>
  The two checks that open the third case of every \<open>Set...Write\<close> and \<open>Set...Delete\<close>,
  the same lines in all six: the panic on a full write queue, and the eviction of one
  read when both queues together fill the array.
\<close>

definition make_room_for_write :: "StateCache \<Rightarrow> StateCache res" where
  "make_room_for_write sc =
     (if WriteHeap_Len sc \<ge> limitWrites sc
      then Inl (Explicit ''writes queue size must not go over limit. Commit writes before proceeding'')
      else if ReadHeap_Len sc + WriteHeap_Len sc \<ge> limitReads sc + limitWrites sc
      then
        bindE (heap_Pop ReadQueue sc) (\<lambda>(popped, sc1).
        bindE (as_Item popped) (\<lambda>victim.
        bindE (btree_Delete (mem sc1) (readWrites sc1) victim) (\<lambda>t.
        Inr (sc1\<lparr>readWrites := t\<rparr>))))
      else Inr sc)"

text \<open>
  In the six functions below the key fields of the new item are copied a second time in
  the third case of the source; the copy writes the bytes that are already there, and the
  model builds the key once.
\<close>

definition SetAccountWrite :: "byte list \<Rightarrow> Account \<Rightarrow> StateCache \<Rightarrow> StateCache res" where
  "SetAccountWrite addr acct sc =
     (let key = account_key addr in
      case btree_Get (mem sc) (writes sc) key of
        Some item \<Rightarrow>
          bindE (as_Account sc (Some item)) (\<lambda>existing.
          let sc1 = update_item existing (set_account acct) sc;
              sc2 = update_item existing (SetSequence (sc_sequence sc1)) sc1;
              sc3 = sc2\<lparr>sc_sequence := sc_sequence sc2 + 1\<rparr>;
              sc4 = update_item existing (SetFlagsTo ModifiedFlag) sc3 in
          heap_Fix WriteQueue (queuePos (mem sc4 ! existing)) sc4)
      | None \<Rightarrow>
       (case btree_Get (mem sc) (readWrites sc) key of
          Some item \<Rightarrow>
            bindE (as_Account sc (Some item)) (\<lambda>existing.
            let sc1 = update_item existing (set_account acct) sc;
                sc2 = update_item existing (SetSequence (sc_sequence sc1)) sc1;
                sc3 = sc2\<lparr>sc_sequence := sc_sequence sc2 + 1\<rparr>;
                sc4 = update_item existing (SetFlagsTo ModifiedFlag) sc3 in
            bindE (heap_Remove ReadQueue (queuePos (mem sc4 ! existing)) sc4)
              (\<lambda>(removed, sc7).
            let sc8 = update_item existing (SetQueuePos (WriteHeap_Len sc7)) sc7 in
            heap_Push WriteQueue existing sc8))
        | None \<Rightarrow>
            bindE (make_room_for_write sc) (\<lambda>sc1.
            let aci1 = set_account acct key;
                aci2 = SetSequence (sc_sequence sc1) aci1;
                sc2 = sc1\<lparr>sc_sequence := sc_sequence sc1 + 1\<rparr>;
                aci3 = SetFlagsTo ModifiedFlag aci2;
                aci4 = SetQueuePos (WriteHeap_Len sc2) aci3;
                (x, sc3) = alloc aci4 sc2 in
            bindE (heap_Push WriteQueue x sc3) (\<lambda>sc4.
            let sc5 = sc4\<lparr>readWrites := btree_ReplaceOrInsert (mem sc4) (readWrites sc4) x\<rparr>;
                sc6 = sc5\<lparr>writes := btree_ReplaceOrInsert (mem sc5) (writes sc5) x\<rparr> in
            Inr sc6))))"

definition SetAccountDelete :: "byte list \<Rightarrow> StateCache \<Rightarrow> StateCache res" where
  "SetAccountDelete addr sc =
     (let key = account_key addr in
      case btree_Get (mem sc) (writes sc) key of
        Some item \<Rightarrow>
          bindE (as_Account sc (Some item)) (\<lambda>existing.
          let sc1 = update_item existing (set_account Account_zero) sc;
              sc2 = update_item existing (SetSequence (sc_sequence sc1)) sc1;
              sc3 = sc2\<lparr>sc_sequence := sc_sequence sc2 + 1\<rparr>;
              sc4 = update_item existing (SetFlagsTo (ModifiedFlag OR DeletedFlag)) sc3 in
          heap_Fix WriteQueue (queuePos (mem sc4 ! existing)) sc4)
      | None \<Rightarrow>
       (case btree_Get (mem sc) (readWrites sc) key of
          Some item \<Rightarrow>
            bindE (as_Account sc (Some item)) (\<lambda>existing.
            let sc1 = update_item existing (set_account Account_zero) sc;
                sc2 = update_item existing (SetSequence (sc_sequence sc1)) sc1;
                sc3 = sc2\<lparr>sc_sequence := sc_sequence sc2 + 1\<rparr>;
                sc4 = update_item existing (SetFlagsTo (ModifiedFlag OR DeletedFlag)) sc3 in
            bindE (heap_Remove ReadQueue (queuePos (mem sc4 ! existing)) sc4)
              (\<lambda>(removed, sc7).
            let sc8 = update_item existing (SetQueuePos (WriteHeap_Len sc7)) sc7 in
            heap_Push WriteQueue existing sc8))
        | None \<Rightarrow>
            bindE (make_room_for_write sc) (\<lambda>sc1.
            let aci1 = SetSequence (sc_sequence sc1) key;
                sc2 = sc1\<lparr>sc_sequence := sc_sequence sc1 + 1\<rparr>;
                aci2 = SetFlagsTo DeletedFlag aci1;
                aci3 = SetQueuePos (WriteHeap_Len sc2) aci2;
                (x, sc3) = alloc aci3 sc2 in
            bindE (heap_Push WriteQueue x sc3) (\<lambda>sc4.
            let sc5 = sc4\<lparr>readWrites := btree_ReplaceOrInsert (mem sc4) (readWrites sc4) x\<rparr>;
                sc6 = sc5\<lparr>writes := btree_ReplaceOrInsert (mem sc5) (writes sc5) x\<rparr> in
            Inr sc6))))"

definition SetStorageWrite ::
  "byte list \<Rightarrow> 64 word \<Rightarrow> byte list \<Rightarrow> byte list \<Rightarrow> StateCache \<Rightarrow> StateCache res" where
  "SetStorageWrite addr inc loc v sc =
     (let key = storage_key addr inc loc in
      case btree_Get (mem sc) (writes sc) key of
        Some item \<Rightarrow>
          bindE (as_Storage sc (Some item)) (\<lambda>existing.
          let sc1 = update_item existing (copy_value v) sc;
              sc2 = update_item existing (SetSequence (sc_sequence sc1)) sc1;
              sc3 = sc2\<lparr>sc_sequence := sc_sequence sc2 + 1\<rparr>;
              sc4 = update_item existing (SetFlagsTo ModifiedFlag) sc3 in
          heap_Fix WriteQueue (queuePos (mem sc4 ! existing)) sc4)
      | None \<Rightarrow>
       (case btree_Get (mem sc) (readWrites sc) key of
          Some item \<Rightarrow>
            bindE (as_Storage sc (Some item)) (\<lambda>existing.
            let sc1 = update_item existing (copy_value v) sc;
                sc2 = update_item existing (SetSequence (sc_sequence sc1)) sc1;
                sc3 = sc2\<lparr>sc_sequence := sc_sequence sc2 + 1\<rparr>;
                sc4 = update_item existing (SetFlagsTo ModifiedFlag) sc3 in
            bindE (heap_Remove ReadQueue (queuePos (mem sc4 ! existing)) sc4)
              (\<lambda>(removed, sc7).
            let sc8 = update_item existing (SetQueuePos (WriteHeap_Len sc7)) sc7 in
            heap_Push WriteQueue existing sc8))
        | None \<Rightarrow>
            bindE (make_room_for_write sc) (\<lambda>sc1.
            let sci1 = copy_value v key;
                sci2 = SetSequence (sc_sequence sc1) sci1;
                sc2 = sc1\<lparr>sc_sequence := sc_sequence sc1 + 1\<rparr>;
                sci3 = SetFlagsTo ModifiedFlag sci2;
                sci4 = SetQueuePos (WriteHeap_Len sc2) sci3;
                (x, sc3) = alloc sci4 sc2 in
            heap_Push WriteQueue x sc3)))"

definition SetStorageDelete ::
  "byte list \<Rightarrow> 64 word \<Rightarrow> byte list \<Rightarrow> StateCache \<Rightarrow> StateCache res" where
  "SetStorageDelete addr inc loc sc =
     (let key = storage_key addr inc loc in
      case btree_Get (mem sc) (writes sc) key of
        Some item \<Rightarrow>
          bindE (as_Storage sc (Some item)) (\<lambda>existing.
          let sc1 = update_item existing (SetSequence (sc_sequence sc)) sc;
              sc2 = sc1\<lparr>sc_sequence := sc_sequence sc1 + 1\<rparr>;
              sc3 = update_item existing (SetFlagsTo (ModifiedFlag OR DeletedFlag)) sc2 in
          heap_Fix WriteQueue (queuePos (mem sc3 ! existing)) sc3)
      | None \<Rightarrow>
       (case btree_Get (mem sc) (readWrites sc) key of
          Some item \<Rightarrow>
            bindE (as_Storage sc (Some item)) (\<lambda>existing.
            let sc1 = update_item existing (SetSequence (sc_sequence sc)) sc;
                sc2 = sc1\<lparr>sc_sequence := sc_sequence sc1 + 1\<rparr>;
                sc3 = update_item existing (SetFlagsTo (ModifiedFlag OR DeletedFlag)) sc2 in
            bindE (heap_Remove ReadQueue (queuePos (mem sc3 ! existing)) sc3)
              (\<lambda>(removed, sc7).
            let sc8 = update_item existing (SetQueuePos (WriteHeap_Len sc7)) sc7 in
            heap_Push WriteQueue existing sc8))
        | None \<Rightarrow>
            bindE (make_room_for_write sc) (\<lambda>sc1.
            let sci1 = SetSequence (sc_sequence sc1) key;
                sc2 = sc1\<lparr>sc_sequence := sc_sequence sc1 + 1\<rparr>;
                sci2 = SetFlagsTo DeletedFlag sci1;
                sci3 = SetQueuePos (WriteHeap_Len sc2) sci2;
                (x, sc3) = alloc sci3 sc2 in
            heap_Push WriteQueue x sc3)))"

definition SetCodeWrite :: "byte list \<Rightarrow> byte list \<Rightarrow> StateCache \<Rightarrow> StateCache res" where
  "SetCodeWrite addr c sc =
     (let key = code_key addr in
      case btree_Get (mem sc) (writes sc) key of
        Some item \<Rightarrow>
          bindE (as_Code sc (Some item)) (\<lambda>existing.
          let sc1 = update_item existing (set_code (Some c)) sc;
              sc2 = update_item existing (SetSequence (sc_sequence sc1)) sc1;
              sc3 = sc2\<lparr>sc_sequence := sc_sequence sc2 + 1\<rparr>;
              sc4 = update_item existing (SetFlagsTo ModifiedFlag) sc3 in
          heap_Fix WriteQueue (queuePos (mem sc4 ! existing)) sc4)
      | None \<Rightarrow>
       (case btree_Get (mem sc) (readWrites sc) key of
          Some item \<Rightarrow>
            bindE (as_Code sc (Some item)) (\<lambda>existing.
            let sc1 = update_item existing (set_code (Some c)) sc;
                sc2 = update_item existing (SetSequence (sc_sequence sc1)) sc1;
                sc3 = sc2\<lparr>sc_sequence := sc_sequence sc2 + 1\<rparr>;
                sc4 = update_item existing (SetFlagsTo ModifiedFlag) sc3 in
            bindE (heap_Remove ReadQueue (queuePos (mem sc4 ! existing)) sc4)
              (\<lambda>(removed, sc7).
            let sc8 = update_item existing (SetQueuePos (WriteHeap_Len sc7)) sc7 in
            heap_Push WriteQueue existing sc8))
        | None \<Rightarrow>
            bindE (make_room_for_write sc) (\<lambda>sc1.
            let cci1 = set_code (Some c) key;
                cci2 = SetSequence (sc_sequence sc1) cci1;
                sc2 = sc1\<lparr>sc_sequence := sc_sequence sc1 + 1\<rparr>;
                cci3 = SetFlagsTo ModifiedFlag cci2;
                cci4 = SetQueuePos (WriteHeap_Len sc2) cci3;
                (x, sc3) = alloc cci4 sc2 in
            heap_Push WriteQueue x sc3)))"

definition SetCodeDelete :: "byte list \<Rightarrow> StateCache \<Rightarrow> StateCache res" where
  "SetCodeDelete addr sc =
     (let key = code_key addr in
      case btree_Get (mem sc) (writes sc) key of
        Some item \<Rightarrow>
          bindE (as_Code sc (Some item)) (\<lambda>existing.
          let sc1 = update_item existing (set_code None) sc;
              sc2 = update_item existing (SetSequence (sc_sequence sc1)) sc1;
              sc3 = sc2\<lparr>sc_sequence := sc_sequence sc2 + 1\<rparr>;
              sc4 = update_item existing (SetFlagsTo ModifiedFlag) sc3 in
          heap_Fix WriteQueue (queuePos (mem sc4 ! existing)) sc4)
      | None \<Rightarrow>
       (case btree_Get (mem sc) (readWrites sc) key of
          Some item \<Rightarrow>
            bindE (as_Code sc (Some item)) (\<lambda>existing.
            let sc1 = update_item existing (set_code None) sc;
                sc2 = update_item existing (SetSequence (sc_sequence sc1)) sc1;
                sc3 = sc2\<lparr>sc_sequence := sc_sequence sc2 + 1\<rparr>;
                sc4 = update_item existing (SetFlagsTo (ModifiedFlag OR DeletedFlag)) sc3 in
            bindE (heap_Remove ReadQueue (queuePos (mem sc4 ! existing)) sc4)
              (\<lambda>(removed, sc7).
            let sc8 = update_item existing (SetQueuePos (WriteHeap_Len sc7)) sc7 in
            heap_Push WriteQueue existing sc8))
        | None \<Rightarrow>
            bindE (make_room_for_write sc) (\<lambda>sc1.
            let cci1 = set_code None key;
                cci2 = SetSequence (sc_sequence sc1) cci1;
                sc2 = sc1\<lparr>sc_sequence := sc_sequence sc1 + 1\<rparr>;
                cci3 = SetFlagsTo (ModifiedFlag OR DeletedFlag) cci2;
                cci4 = SetQueuePos (WriteHeap_Len sc2) cci3;
                (x, sc3) = alloc cci4 sc2 in
            heap_Push WriteQueue x sc3)))"

subsection \<open>Commit\<close>

text \<open>
  \<open>copy(sc.readQueue.items[sc.readQueue.end:], sc.writeQueue.items[sc.writeQueue.start:])\<close>
  on the shared array: the two slice expressions panic out of bounds, then the write
  region is copied over the slots that follow the read region.
\<close>

definition TurnWritesToReads :: "StateCache \<Rightarrow> StateCache res" where
  "TurnWritesToReads sc =
     (let writeLen = WriteHeap_Len sc - 1;
          sc1 = fold (\<lambda>i s.
                  let s1 = update_item i
                             (\<lambda>it. SetQueuePos (readQueue_end s + writeLen - GetQueuePos it) it) s in
                  update_item i (ClearFlags ModifiedFlag) s1) (writes sc) sc;
          n = int (length (items sc1));
          e = readQueue_end sc1;
          st = writeQueue_start sc1 in
      if \<not> (0 \<le> e \<and> e \<le> n) \<or> \<not> (0 \<le> st \<and> st \<le> n) then Inl SliceBoundsOutOfRange
      else
        let sc2 = sc1\<lparr>items := take (nat e) (items sc1) @
                                 go_copy (drop (nat e) (items sc1)) (drop (nat st) (items sc1))\<rparr>;
            sc3 = sc2\<lparr>readQueue_end := readQueue_end sc2 + (n - writeQueue_start sc2)\<rparr>;
            sc4 = sc3\<lparr>writeQueue_start := n\<rparr> in
        heap_Init ReadQueue sc4)"

subsection \<open>Sequences of calls\<close>

text \<open>
  The host drives the cache by a sequence of calls; a panic ends the sequence.
\<close>

datatype call =
    CallSetAccountRead "byte list" Account
  | CallSetAccountAbsent "byte list"
  | CallSetAccountWrite "byte list" Account
  | CallSetAccountDelete "byte list"
  | CallSetStorageRead "byte list" "64 word" "byte list" "byte list"
  | CallSetStorageAbsent "byte list" "64 word" "byte list"
  | CallSetStorageWrite "byte list" "64 word" "byte list" "byte list"
  | CallSetStorageDelete "byte list" "64 word" "byte list"
  | CallSetCodeRead "byte list" "byte list"
  | CallSetCodeAbsent "byte list"
  | CallSetCodeWrite "byte list" "byte list"
  | CallSetCodeDelete "byte list"
  | CallTurnWritesToReads

fun do_call :: "call \<Rightarrow> StateCache \<Rightarrow> StateCache res" where
  "do_call (CallSetAccountRead addr acct) sc = SetAccountRead addr acct sc"
| "do_call (CallSetAccountAbsent addr) sc = SetAccountAbsent addr sc"
| "do_call (CallSetAccountWrite addr acct) sc = SetAccountWrite addr acct sc"
| "do_call (CallSetAccountDelete addr) sc = SetAccountDelete addr sc"
| "do_call (CallSetStorageRead addr inc loc v) sc = SetStorageRead addr inc loc v sc"
| "do_call (CallSetStorageAbsent addr inc loc) sc = SetStorageAbsent addr inc loc sc"
| "do_call (CallSetStorageWrite addr inc loc v) sc = SetStorageWrite addr inc loc v sc"
| "do_call (CallSetStorageDelete addr inc loc) sc = SetStorageDelete addr inc loc sc"
| "do_call (CallSetCodeRead addr c) sc = SetCodeRead addr c sc"
| "do_call (CallSetCodeAbsent addr) sc = SetCodeAbsent addr sc"
| "do_call (CallSetCodeWrite addr c) sc = SetCodeWrite addr c sc"
| "do_call (CallSetCodeDelete addr) sc = SetCodeDelete addr sc"
| "do_call CallTurnWritesToReads sc = TurnWritesToReads sc"

fun calls :: "call list \<Rightarrow> StateCache res \<Rightarrow> StateCache res" where
  "calls [] r = r"
| "calls (c # cs) r = calls cs (bindE r (do_call c))"

subsection \<open>The order the items are meant to have\<close>

text \<open>
  This is the order as the specification words it, kept apart from \<open>Less\<close>: the address
  first, then the class of the item with accounts before code before storage, then for
  two storage items the incarnation and the location.
\<close>

fun class_rank :: "CacheItem \<Rightarrow> nat" where
  "class_rank (AccountCacheItem _ _ _ _ _) = 0"
| "class_rank (CodeCacheItem _ _ _ _ _) = 1"
| "class_rank (StorageCacheItem _ _ _ _ _ _ _) = 2"

definition spec_less :: "CacheItem \<Rightarrow> CacheItem \<Rightarrow> bool" where
  "spec_less x y =
     (let c = bytes_Compare (address x) (address y) in
      if c \<noteq> 0 then c < 0
      else if class_rank x \<noteq> class_rank y then class_rank x < class_rank y
      else if class_rank x = 2
      then (if incarnation x \<noteq> incarnation y then incarnation x < incarnation y
            else bytes_Compare (location x) (location y) < 0)
      else False)"

definition same_key :: "CacheItem \<Rightarrow> CacheItem \<Rightarrow> bool" where
  "same_key x y =
     (address x = address y \<and> class_rank x = class_rank y \<and>
      (if class_rank x = 2 then incarnation x = incarnation y \<and> location x = location y
       else True))"

section \<open>Properties\<close>

subsection \<open>The comparison of byte strings\<close>

lemma bytes_Compare_eq: "bytes_Compare a b = 0 \<longleftrightarrow> a = b"
  by (induction a b rule: bytes_Compare.induct) auto

lemma bytes_Compare_refl [simp]: "bytes_Compare a a = 0"
  by (simp add: bytes_Compare_eq)

lemma bytes_Compare_flip: "bytes_Compare b a = - bytes_Compare a b"
  by (induction a b rule: bytes_Compare.induct) auto

lemma bytes_Compare_total: "bytes_Compare a b < 0 \<or> a = b \<or> bytes_Compare b a < 0"
proof (cases "bytes_Compare a b = 0")
  case True
  then show ?thesis by (simp add: bytes_Compare_eq)
next
  case False
  then have "bytes_Compare a b < 0 \<or> - bytes_Compare a b < 0" by arith
  then show ?thesis unfolding bytes_Compare_flip [of b a] by blast
qed

lemma bytes_Compare_lexord:
  "bytes_Compare a b < 0 \<longleftrightarrow> (a, b) \<in> lexord {(x, y). x < y}"
proof (induction a b rule: bytes_Compare.induct)
  case (4 x xs y ys)
  show ?case
  proof (cases "x < y")
    case True
    then show ?thesis by simp
  next
    case nlt: False
    show ?thesis
    proof (cases "y < x")
      case True
      then have "x \<noteq> y" by simp
      with nlt True show ?thesis by simp
    next
      case False
      with nlt have "x = y" by (rule_tac order.antisym) simp_all
      with nlt False 4 show ?thesis by simp
    qed
  qed
qed simp_all

lemma bytes_Compare_trans:
  "bytes_Compare a b < 0 \<Longrightarrow> bytes_Compare b c < 0 \<Longrightarrow> bytes_Compare a c < 0"
proof -
  assume ab: "bytes_Compare a b < 0" and bc: "bytes_Compare b c < 0"
  have tr: "trans {(x :: byte, y). x < y}"
    by (rule transI) (clarsimp, erule (1) order.strict_trans)
  from ab bc show ?thesis
    unfolding bytes_Compare_lexord by (rule lexord_trans) (rule tr)
qed

lemma Less_spec: "Less a b = spec_less a b"
  by (cases a; cases b) (simp_all add: spec_less_def Let_def)

lemma spec_less_asym: "spec_less a b \<Longrightarrow> \<not> spec_less b a"
  unfolding spec_less_def Let_def
  by (simp add: bytes_Compare_flip [of "address b" "address a"] bytes_Compare_eq
       bytes_Compare_flip [of "location b" "location a"] split: if_splits)

lemma spec_less_trans:
  assumes ab: "spec_less a b" and bc: "spec_less b c"
  shows "spec_less a c"
proof (cases "address a = address b")
  case ne: False
  with ab have lt: "bytes_Compare (address a) (address b) < 0"
    by (simp add: spec_less_def Let_def bytes_Compare_eq split: if_splits)
  have "bytes_Compare (address a) (address c) < 0"
  proof (cases "address b = address c")
    case True
    with lt show ?thesis by simp
  next
    case False
    with bc have "bytes_Compare (address b) (address c) < 0"
      by (simp add: spec_less_def Let_def bytes_Compare_eq split: if_splits)
    with lt show ?thesis by (rule bytes_Compare_trans)
  qed
  then show ?thesis by (simp add: spec_less_def Let_def)
next
  case eq1: True
  show ?thesis
  proof (cases "address b = address c")
    case False
    with bc have "bytes_Compare (address b) (address c) < 0"
      by (simp add: spec_less_def Let_def bytes_Compare_eq split: if_splits)
    with eq1 show ?thesis by (simp add: spec_less_def Let_def)
  next
    case eq2: True
    show ?thesis
    proof (cases "class_rank a = class_rank b \<and> class_rank b = class_rank c")
      case False
      with ab bc eq1 eq2 show ?thesis
        by (simp add: spec_less_def Let_def split: if_splits)
    next
      case rk: True
      show ?thesis
      proof (cases "incarnation a = incarnation b \<and> incarnation b = incarnation c")
        case False
        with ab bc eq1 eq2 rk show ?thesis
          by (auto simp add: spec_less_def Let_def split: if_splits)
      next
        case True
        with ab bc eq1 eq2 rk show ?thesis
          using bytes_Compare_trans [of "location a" "location b" "location c"]
          by (simp add: spec_less_def Let_def split: if_splits)
      qed
    qed
  qed
qed

lemma spec_less_total: "spec_less a b \<or> spec_less b a \<or> same_key a b"
proof (cases "address a = address b")
  case False
  with bytes_Compare_total [of "address a" "address b"] show ?thesis
    by (auto simp add: spec_less_def Let_def)
next
  case eq: True
  show ?thesis
  proof (cases "class_rank a = class_rank b")
    case False
    with eq show ?thesis
      by (simp add: spec_less_def Let_def) arith
  next
    case rk: True
    show ?thesis
    proof (cases "class_rank a = 2")
      case False
      with eq rk show ?thesis by (simp add: same_key_def)
    next
      case True
      with eq rk bytes_Compare_total [of "location a" "location b"] show ?thesis
        by (auto simp add: spec_less_def Let_def same_key_def)
    qed
  qed
qed

lemma same_key_sym: "same_key a b \<Longrightarrow> same_key b a"
  unfolding same_key_def by (simp split: if_splits)

lemma same_key_not_less: "same_key a b \<Longrightarrow> \<not> spec_less a b"
  unfolding spec_less_def Let_def same_key_def
  by (simp split: if_splits)


subsection \<open>The comparison of items\<close>

text \<open>
  C9. \<open>Less\<close> is the stated order: it compares the address first, at one address it puts
  the account before the code and the code before the storage items, and it orders the
  storage items of one address by incarnation and then by location. Of two items exactly
  one of \<open>a < b\<close>, \<open>b < a\<close> and equality of keys holds, the order is transitive, and
  every item of an address sorts before every item of a larger address, so that an
  ascending walk from the account key of an address meets its account, its code and its
  storage before anything of a larger address: in a list that ascends by \<open>Less\<close> the
  addresses never decrease, and within one address the classes come in the order account,
  code, storage.
\<close>

theorem Less_stated_total_order:
  "Less a b = spec_less a b
   \<and> (Less a b \<or> Less b a \<or> same_key a b)
   \<and> \<not> (Less a b \<and> Less b a)
   \<and> \<not> (Less a b \<and> same_key a b)
   \<and> \<not> (Less b a \<and> same_key a b)
   \<and> (Less a b \<and> Less b c \<longrightarrow> Less a c)
   \<and> Less (AccountCacheItem A acct s1 q1 f1) (CodeCacheItem A cd s2 q2 f2)
   \<and> Less (CodeCacheItem A cd s2 q2 f2) (StorageCacheItem A inc loc v s3 q3 f3)
   \<and> (address a = A \<and> bytes_Compare A (address b) < 0 \<longrightarrow> Less a b)
   \<and> (sorted_wrt Less xs \<and> i < j \<and> j < length xs
        \<longrightarrow> bytes_Compare (address (xs ! i)) (address (xs ! j)) \<le> 0
            \<and> (address (xs ! i) = address (xs ! j)
                 \<longrightarrow> class_rank (xs ! i) \<le> class_rank (xs ! j)))"
proof -
  have "sorted_wrt Less xs \<and> i < j \<and> j < length xs
        \<longrightarrow> bytes_Compare (address (xs ! i)) (address (xs ! j)) \<le> 0
            \<and> (address (xs ! i) = address (xs ! j)
                 \<longrightarrow> class_rank (xs ! i) \<le> class_rank (xs ! j))"
  proof (intro impI, elim conjE)
    assume "sorted_wrt Less xs" and "i < j" and "j < length xs"
    then have "Less (xs ! i) (xs ! j)"
      by (simp add: sorted_wrt_iff_nth_less)
    then have "spec_less (xs ! i) (xs ! j)"
      by (simp add: Less_spec)
    then show "bytes_Compare (address (xs ! i)) (address (xs ! j)) \<le> 0
               \<and> (address (xs ! i) = address (xs ! j)
                    \<longrightarrow> class_rank (xs ! i) \<le> class_rank (xs ! j))"
      by (auto simp add: spec_less_def Let_def bytes_Compare_eq split: if_splits)
  qed
  moreover have "\<not> (Less a b \<and> Less b a)"
    using spec_less_asym [of a b] by (simp add: Less_spec)
  moreover have "\<not> (Less a b \<and> same_key a b)"
    using same_key_not_less [of a b] by (auto simp add: Less_spec)
  moreover have "\<not> (Less b a \<and> same_key a b)"
    using same_key_not_less [of b a] same_key_sym [of a b] by (auto simp add: Less_spec)
  moreover have "Less a b \<and> Less b c \<longrightarrow> Less a c"
    using spec_less_trans [of a b c] by (simp add: Less_spec)
  moreover have "address a = A \<and> bytes_Compare A (address b) < 0 \<longrightarrow> Less a b"
    by (auto simp add: Less_spec spec_less_def Let_def)
  moreover have "Less a b \<or> Less b a \<or> same_key a b"
    using spec_less_total [of a b] by (simp add: Less_spec)
  moreover have "Less (AccountCacheItem A acct s1 q1 f1) (CodeCacheItem A cd s2 q2 f2)"
    by simp
  moreover have "Less (CodeCacheItem A cd s2 q2 f2) (StorageCacheItem A inc loc v s3 q3 f3)"
    by simp
  ultimately show ?thesis
    using Less_spec [of a b] by blast
qed

theorem Less_stated_total_order_witness:
  "Less (AccountCacheItem [1] (Account [5]) 0 0 0) (CodeCacheItem [2] None 0 0 0)
   \<and> Less (CodeCacheItem [2] None 0 0 0) (StorageCacheItem [2] 1 [7] [9] 0 0 0)
   \<and> address (AccountCacheItem [1] (Account [5]) 0 0 0) = [1]
   \<and> bytes_Compare [1] (address (CodeCacheItem [2] None 0 0 0)) < 0
   \<and> Less (AccountCacheItem [1] (Account [5]) 0 0 0) (StorageCacheItem [2] 1 [7] [9] 0 0 0)
   \<and> sorted_wrt Less [AccountCacheItem [1] (Account [5]) 0 0 0, CodeCacheItem [2] None 0 0 0,
                       StorageCacheItem [2] 1 [7] [9] 0 0 0]
   \<and> (1 :: nat) < 2
   \<and> 2 < length [AccountCacheItem [1] (Account [5]) 0 0 0, CodeCacheItem [2] None 0 0 0,
                  StorageCacheItem [2] 1 [7] [9] 0 0 0]
   \<and> address (CodeCacheItem [2] None 0 0 0) = address (StorageCacheItem [2] 1 [7] [9] 0 0 0)
   \<and> class_rank (CodeCacheItem [2] None 0 0 0)
       \<le> class_rank (StorageCacheItem [2] 1 [7] [9] 0 0 0)"
proof -
  let ?a = "AccountCacheItem [1] (Account [5]) 0 0 0"
  let ?b = "CodeCacheItem [2] None 0 0 0"
  let ?c = "StorageCacheItem [2] 1 [7] [9] 0 0 0"
  have ab: "Less ?a ?b"
    by simp
  have bc: "Less ?b ?c"
    by simp
  have ad: "address ?a = [1] \<and> bytes_Compare [1] (address ?b) < 0"
    by simp
  have so: "sorted_wrt Less [?a, ?b, ?c] \<and> (1 :: nat) < 2 \<and> 2 < length [?a, ?b, ?c]"
    by simp
  have eq: "address ([?a, ?b, ?c] ! 1) = address ([?a, ?b, ?c] ! 2)"
    by simp
  note th = Less_stated_total_order
              [where a = ?a and b = ?b and c = ?c and A = "[1]" and xs = "[?a, ?b, ?c]"
                 and i = 1 and j = 2]
  from th ab bc have "Less ?a ?c"
    by blast
  moreover from th so eq
  have "class_rank ([?a, ?b, ?c] ! 1) \<le> class_rank ([?a, ?b, ?c] ! 2)"
    by blast
  then have "class_rank ?b \<le> class_rank ?c"
    by simp
  ultimately show ?thesis
    using ab bc ad so by simp
qed

subsection \<open>Evaluation helpers\<close>

lemma quo_minus_one_2 [simp]: "quo (- 1) 2 = 0"
  by (simp add: quo_def)


lemmas fresh_write_defs =
  bindE_def NewStateCache_def make_room_for_write_def WriteHeap_Len_def ReadHeap_Len_def
  alloc_def heap_Push_def WriteHeap_Push_def get_def Let_def

lemmas fresh_read_defs =
  bindE_def NewStateCache_def setRead_def alloc_def update_item_def ReadHeap_Len_def
  heap_Push_def ReadHeap_Push_def get_def Let_def HasFlag_def DeletedFlag_def

subsection \<open>Writes and the lookups that follow them\<close>

text \<open>
  C1. The claim: for each of the three kinds, \<open>GetX(k)\<close> after \<open>SetXWrite(k, v)\<close> returns
  \<open>v\<close>, and a new write entry is put into \<open>readWrites\<close> and \<open>writes\<close>. The theorem
  evaluates the code on a new cache with room for two reads and two writes, for every key and
  value: the account written is found again, but the storage slot and the code are put on
  the write heap only, into neither tree, and the lookups that follow do not find them.
\<close>

theorem SetStorageWrite_and_SetCodeWrite_not_found_again:
  "bindE (calls [CallSetAccountWrite addr acct] (NewStateCache 32 2 2)) (GetAccount addr)
     = Inr (Some acct, True)
   \<and> bindE (calls [CallSetStorageWrite addr inc loc v] (NewStateCache 32 2 2))
         (GetStorage addr inc loc)
     = Inr (None, False)
   \<and> bindE (calls [CallSetCodeWrite addr c] (NewStateCache 32 2 2)) (GetCode addr)
     = Inr (None, True)
   \<and> calls [CallSetStorageWrite [1] 1 [7] [9]] (NewStateCache 32 2 2)
     = Inr \<lparr>mem = [StorageCacheItem (go_copy Address_zero [1]) 1 (go_copy Hash_zero [7])
                 (go_copy Hash_zero [9]) 0 0 ModifiedFlag],
          readWrites = [], writes = [],
          items = [None, None, None, Some 0],
          readQueue_end = 0, writeQueue_start = 3,
          limitReads = 2, limitWrites = 2, sc_sequence = 1\<rparr>
   \<and> calls [CallSetCodeWrite [1] [9]] (NewStateCache 32 2 2)
     = Inr \<lparr>mem = [CodeCacheItem (go_copy Address_zero [1]) (Some [9]) 0 0 ModifiedFlag],
          readWrites = [], writes = [],
          items = [None, None, None, Some 0],
          readQueue_end = 0, writeQueue_start = 3,
          limitReads = 2, limitWrites = 2, sc_sequence = 1\<rparr>"
proof -
  have "bindE (calls [CallSetAccountWrite addr acct] (NewStateCache 32 2 2)) (GetAccount addr)
          = Inr (Some acct, True)"
    by (simp add: fresh_write_defs SetAccountWrite_def account_key_def heap_up.simps [of _ 0]
          GetAccount_def as_Account_def HasFlag_def ModifiedFlag_def DeletedFlag_def)
  moreover have "bindE (calls [CallSetStorageWrite addr inc loc v] (NewStateCache 32 2 2))
                   (GetStorage addr inc loc) = Inr (None, False)"
    by (simp add: fresh_write_defs SetStorageWrite_def heap_up.simps [of _ 0] GetStorage_def)
  moreover have "bindE (calls [CallSetCodeWrite addr c] (NewStateCache 32 2 2)) (GetCode addr)
                   = Inr (None, True)"
    by (simp add: fresh_write_defs SetCodeWrite_def heap_up.simps [of _ 0] GetCode_def)
  moreover have "calls [CallSetStorageWrite [1] 1 [7] [9]] (NewStateCache 32 2 2)
     = Inr \<lparr>mem = [StorageCacheItem (go_copy Address_zero [1]) 1 (go_copy Hash_zero [7])
                 (go_copy Hash_zero [9]) 0 0 ModifiedFlag],
          readWrites = [], writes = [],
          items = [None, None, None, Some 0],
          readQueue_end = 0, writeQueue_start = 3,
          limitReads = 2, limitWrites = 2, sc_sequence = 1\<rparr>"
    by code_simp
  moreover have "calls [CallSetCodeWrite [1] [9]] (NewStateCache 32 2 2)
     = Inr \<lparr>mem = [CodeCacheItem (go_copy Address_zero [1]) (Some [9]) 0 0 ModifiedFlag],
          readWrites = [], writes = [],
          items = [None, None, None, Some 0],
          readQueue_end = 0, writeQueue_start = 3,
          limitReads = 2, limitWrites = 2, sc_sequence = 1\<rparr>"
    by code_simp
  ultimately show ?thesis by blast
qed

text \<open>
  C2. The claim: a write to a key that is cached as a clean read moves the item from the
  read heap to the write heap and puts it into \<open>writes\<close>, so that after
  \<open>SetAccountRead(a, A); SetAccountWrite(a, A')\<close> both trees have one entry and
  \<open>GetAccount(a)\<close> is \<open>A'\<close>. The theorem evaluates that scenario: the item is updated
  in place, leaves the read heap and sits in the last slot of the array, and the lookup
  returns the new value, but \<open>writes\<close> stays empty.
\<close>

theorem SetAccountWrite_over_read_leaves_writes_empty:
  "calls [CallSetAccountRead [1] (Account [5]), CallSetAccountWrite [1] (Account [6])]
     (NewStateCache 32 2 2)
     = Inr \<lparr>mem = [AccountCacheItem (go_copy Address_zero [1]) (Account [6]) 0 0 ModifiedFlag],
          readWrites = [0], writes = [],
          items = [Some 0, None, None, Some 0],
          readQueue_end = 0, writeQueue_start = 3,
          limitReads = 2, limitWrites = 2, sc_sequence = 1\<rparr>
   \<and> bindE (calls [CallSetAccountRead [1] (Account [5]), CallSetAccountWrite [1] (Account [6])]
              (NewStateCache 32 2 2)) (GetAccount [1])
     = Inr (Some (Account [6]), True)"
  by code_simp

subsection \<open>Commit\<close>

text \<open>
  C3. The claim: after \<open>TurnWritesToReads\<close> no live item has \<open>MODIFIED\<close> set and
  \<open>writes\<close> is empty. The theorem evaluates two commits. After a single account write
  the item is clean but it is still in \<open>writes\<close>. After a read that was overwritten, the
  item was never in \<open>writes\<close>, the walk over \<open>writes\<close> does not visit it, and it is in
  \<open>readWrites\<close> and in the read heap with \<open>MODIFIED\<close> still set. The entry left in
  \<open>writes\<close> by the first commit sends the next write to that key down the branch for
  dirty items: the item becomes \<open>MODIFIED\<close> and stays in the read heap, where reads are
  evicted, while the write heap is empty.
\<close>

theorem TurnWritesToReads_keeps_writes_and_a_modified_item:
  "calls [CallSetAccountWrite [1] (Account [5]), CallTurnWritesToReads] (NewStateCache 32 2 2)
     = Inr \<lparr>mem = [AccountCacheItem (go_copy Address_zero [1]) (Account [5]) 0 0 0],
          readWrites = [0], writes = [0],
          items = [Some 0, None, None, Some 0],
          readQueue_end = 1, writeQueue_start = 4,
          limitReads = 2, limitWrites = 2, sc_sequence = 1\<rparr>
   \<and> calls [CallSetAccountRead [1] (Account [5]), CallSetAccountWrite [1] (Account [6]),
             CallTurnWritesToReads] (NewStateCache 32 2 2)
     = Inr \<lparr>mem = [AccountCacheItem (go_copy Address_zero [1]) (Account [6]) 0 0 ModifiedFlag],
          readWrites = [0], writes = [],
          items = [Some 0, None, None, Some 0],
          readQueue_end = 1, writeQueue_start = 4,
          limitReads = 2, limitWrites = 2, sc_sequence = 1\<rparr>
   \<and> calls [CallSetAccountWrite [1] (Account [5]), CallTurnWritesToReads,
             CallSetAccountWrite [1] (Account [6])] (NewStateCache 32 2 2)
     = Inr \<lparr>mem = [AccountCacheItem (go_copy Address_zero [1]) (Account [6]) 1 0 ModifiedFlag],
          readWrites = [0], writes = [0],
          items = [Some 0, None, None, Some 0],
          readQueue_end = 1, writeQueue_start = 4,
          limitReads = 2, limitWrites = 2, sc_sequence = 2\<rparr>"
  by code_simp

subsection \<open>Queue positions and sequences\<close>

text \<open>
  C4. The claim: every live item sits in the heap slot that its \<open>queuePos\<close> names, after
  any sequence of calls; a push leaves the position of the pushed item right and a swap
  updates the positions of the two items swapped. The theorem evaluates two sequences.
  After two reads the second item is in slot 1 of the read heap and its \<open>queuePos\<close> is 0:
  \<open>setRead\<close> sets 0 before the push and the push does not set it. After two reads, two
  writes and a second write to the older dirty key, the swap in the write heap has
  exchanged slots 2 and 3 of the array and has set the positions of the items in slots 0
  and 1, the two reads: the first read now has position 1 in slot 0, and the two writes
  kept positions that name each other's slot.
\<close>

theorem queuePos_not_the_heap_slot:
  "calls [CallSetAccountRead [1] (Account [5]), CallSetAccountRead [2] (Account [6])]
     (NewStateCache 32 2 2)
     = Inr \<lparr>mem = [AccountCacheItem (go_copy Address_zero [1]) (Account [5]) 0 0 0,
               AccountCacheItem (go_copy Address_zero [2]) (Account [6]) 0 0 0],
          readWrites = [0, 1], writes = [],
          items = [Some 0, Some 1, None, None],
          readQueue_end = 2, writeQueue_start = 4,
          limitReads = 2, limitWrites = 2, sc_sequence = 0\<rparr>
   \<and> calls [CallSetAccountRead [1] (Account [5]), CallSetAccountRead [2] (Account [6]),
             CallSetAccountWrite [3] (Account [7]), CallSetAccountWrite [4] (Account [8]),
             CallSetAccountWrite [3] (Account [9])] (NewStateCache 32 2 2)
     = Inr \<lparr>mem = [AccountCacheItem (go_copy Address_zero [1]) (Account [5]) 0 1 0,
               AccountCacheItem (go_copy Address_zero [2]) (Account [6]) 0 0 0,
               AccountCacheItem (go_copy Address_zero [3]) (Account [9]) 2 0 ModifiedFlag,
               AccountCacheItem (go_copy Address_zero [4]) (Account [8]) 1 1 ModifiedFlag],
          readWrites = [0, 1, 2, 3], writes = [2, 3],
          items = [Some 0, Some 1, Some 2, Some 3],
          readQueue_end = 2, writeQueue_start = 2,
          limitReads = 2, limitWrites = 2, sc_sequence = 3\<rparr>"
  by code_simp

text \<open>
  C5. The claim: every \<open>SetXRead\<close>, \<open>SetXAbsent\<close>, \<open>SetXWrite\<close> and \<open>SetXDelete\<close>
  takes a new, larger sequence number, and no two live items share one. The theorem
  evaluates two sequences. Three reads of the three kinds all get sequence 0, and the
  counter of the cache is still 0 after them: \<open>setRead\<close> copies the counter and does not
  advance it. A read made after a write gets the number that the next write gets as well.
\<close>

theorem reads_do_not_advance_the_sequence:
  "calls [CallSetAccountRead [1] (Account [5]), CallSetStorageRead [1] 1 [7] [9],
           CallSetCodeAbsent [1]] (NewStateCache 32 4 2)
     = Inr \<lparr>mem = [AccountCacheItem (go_copy Address_zero [1]) (Account [5]) 0 0 0,
               StorageCacheItem (go_copy Address_zero [1]) 1 (go_copy Hash_zero [7])
                 (go_copy Hash_zero [9]) 0 0 0,
               CodeCacheItem (go_copy Address_zero [1]) None 0 0 DeletedFlag],
          readWrites = [0, 2, 1], writes = [],
          items = [Some 0, Some 1, Some 2, None, None, None],
          readQueue_end = 3, writeQueue_start = 6,
          limitReads = 4, limitWrites = 2, sc_sequence = 0\<rparr>
   \<and> calls [CallSetAccountWrite [1] (Account [5]), CallSetAccountRead [2] (Account [6]),
             CallSetAccountWrite [3] (Account [7])] (NewStateCache 32 2 2)
     = Inr \<lparr>mem = [AccountCacheItem (go_copy Address_zero [1]) (Account [5]) 0 0 ModifiedFlag,
               AccountCacheItem (go_copy Address_zero [2]) (Account [6]) 1 0 0,
               AccountCacheItem (go_copy Address_zero [3]) (Account [7]) 1 1 ModifiedFlag],
          readWrites = [0, 1, 2], writes = [0, 2],
          items = [Some 1, None, Some 2, Some 0],
          readQueue_end = 1, writeQueue_start = 2,
          limitReads = 2, limitWrites = 2, sc_sequence = 2\<rparr>"
  by code_simp

subsection \<open>Deletion\<close>

text \<open>
  C6. The claim: every \<open>SetXDelete\<close> leaves the item with \<open>MODIFIED\<close> and \<open>DELETED\<close>
  both set and its value zeroed, whether the key was dirty, a clean read or not cached. The
  theorem evaluates four calls. \<open>SetAccountDelete\<close> and \<open>SetStorageDelete\<close> of a key that
  is not cached store an item with \<open>DELETED\<close> alone. \<open>SetStorageDelete\<close> of a clean read
  sets both flags and keeps the value that was read. \<open>SetAccountDelete\<close> of a clean read
  does what the claim says.
\<close>

theorem SetDelete_flags_and_values:
  "calls [CallSetAccountDelete [1]] (NewStateCache 32 2 2)
     = Inr \<lparr>mem = [AccountCacheItem (go_copy Address_zero [1]) Account_zero 0 0 DeletedFlag],
          readWrites = [0], writes = [0],
          items = [None, None, None, Some 0],
          readQueue_end = 0, writeQueue_start = 3,
          limitReads = 2, limitWrites = 2, sc_sequence = 1\<rparr>
   \<and> calls [CallSetStorageDelete [1] 1 [7]] (NewStateCache 32 2 2)
     = Inr \<lparr>mem = [StorageCacheItem (go_copy Address_zero [1]) 1 (go_copy Hash_zero [7]) Hash_zero
                 0 0 DeletedFlag],
          readWrites = [], writes = [],
          items = [None, None, None, Some 0],
          readQueue_end = 0, writeQueue_start = 3,
          limitReads = 2, limitWrites = 2, sc_sequence = 1\<rparr>
   \<and> calls [CallSetStorageRead [1] 1 [7] [9], CallSetStorageDelete [1] 1 [7]]
        (NewStateCache 32 2 2)
     = Inr \<lparr>mem = [StorageCacheItem (go_copy Address_zero [1]) 1 (go_copy Hash_zero [7])
                 (go_copy Hash_zero [9]) 0 0 (ModifiedFlag OR DeletedFlag)],
          readWrites = [0], writes = [],
          items = [Some 0, None, None, Some 0],
          readQueue_end = 0, writeQueue_start = 3,
          limitReads = 2, limitWrites = 2, sc_sequence = 1\<rparr>
   \<and> calls [CallSetAccountRead [1] (Account [5]), CallSetAccountDelete [1]]
        (NewStateCache 32 2 2)
     = Inr \<lparr>mem = [AccountCacheItem (go_copy Address_zero [1]) Account_zero 0 0
                 (ModifiedFlag OR DeletedFlag)],
          readWrites = [0], writes = [],
          items = [Some 0, None, None, Some 0],
          readQueue_end = 0, writeQueue_start = 3,
          limitReads = 2, limitWrites = 2, sc_sequence = 1\<rparr>"
  by code_simp

subsection \<open>Lookups\<close>

text \<open>
  C7. The claim: a lookup has three outcomes that the caller can tell apart, the value, a
  tombstone and a miss, and a key whose item has \<open>DELETED\<close> set is seen as present in
  the cache with no value. The theorem evaluates the code on a new cache with room for two
  reads and two writes, for every key. A key that was read is found with its value. A key
  stored by \<open>SetAccountAbsent\<close>, \<open>SetStorageAbsent\<close> or \<open>SetCodeAbsent\<close>, and an
  account deleted by \<open>SetAccountDelete\<close>, is answered exactly as the same key is answered
  by the new cache, which holds nothing: \<open>get\<close> returns \<open>nil\<close> and \<open>false\<close> for an
  item with \<open>DELETED\<close> as it does for no item. The host that takes this answer for a miss
  and fills the key again runs into the panic of \<open>setRead\<close>, because the key is present.
\<close>

theorem tombstone_lookup_same_as_miss:
  "bindE (calls [CallSetAccountRead addr acct] (NewStateCache 32 2 2)) (GetAccount addr)
     = Inr (Some acct, True)
   \<and> bindE (calls [CallSetStorageRead addr inc loc v] (NewStateCache 32 2 2))
         (GetStorage addr inc loc)
     = Inr (Some (go_copy Hash_zero v), True)
   \<and> bindE (calls [CallSetCodeRead addr c] (NewStateCache 32 2 2)) (GetCode addr)
     = Inr (Some c, True)
   \<and> bindE (calls [CallSetAccountAbsent addr] (NewStateCache 32 2 2)) (GetAccount addr)
     = Inr (None, False)
   \<and> bindE (NewStateCache 32 2 2) (GetAccount addr)
     = Inr (None, False)
   \<and> bindE (calls [CallSetStorageAbsent addr inc loc] (NewStateCache 32 2 2))
         (GetStorage addr inc loc)
     = Inr (None, False)
   \<and> bindE (NewStateCache 32 2 2) (GetStorage addr inc loc)
     = Inr (None, False)
   \<and> bindE (calls [CallSetCodeAbsent addr] (NewStateCache 32 2 2)) (GetCode addr)
     = Inr (None, True)
   \<and> bindE (NewStateCache 32 2 2) (GetCode addr)
     = Inr (None, True)
   \<and> bindE (calls [CallSetAccountDelete [1]] (NewStateCache 32 2 2)) (GetAccount [1])
     = Inr (None, False)
   \<and> calls [CallSetAccountAbsent addr, CallSetAccountAbsent addr] (NewStateCache 32 2 2)
     = Inl (Explicit ''item must not be present in the cache before doing setRead'')
   \<and> calls [CallSetAccountAbsent [1]] (NewStateCache 32 2 2)
     = Inr \<lparr>mem = [AccountCacheItem (go_copy Address_zero [1]) Account_zero 0 0 DeletedFlag],
          readWrites = [0], writes = [],
          items = [Some 0, None, None, None],
          readQueue_end = 1, writeQueue_start = 4,
          limitReads = 2, limitWrites = 2, sc_sequence = 0\<rparr>"
proof -
  have "bindE (calls [CallSetAccountRead addr acct] (NewStateCache 32 2 2)) (GetAccount addr)
          = Inr (Some acct, True)"
    by (simp add: fresh_read_defs SetAccountRead_def heap_up.simps [of _ 0] GetAccount_def
          account_key_def as_Account_def)
  moreover have "bindE (calls [CallSetStorageRead addr inc loc v] (NewStateCache 32 2 2))
                   (GetStorage addr inc loc) = Inr (Some (go_copy Hash_zero v), True)"
    by (simp add: fresh_read_defs SetStorageRead_def heap_up.simps [of _ 0] GetStorage_def
          storage_key_def as_Storage_def)
  moreover have "bindE (calls [CallSetCodeRead addr c] (NewStateCache 32 2 2)) (GetCode addr)
                   = Inr (Some c, True)"
    by (simp add: fresh_read_defs SetCodeRead_def heap_up.simps [of _ 0] GetCode_def
          code_key_def as_Code_def)
  moreover have "bindE (calls [CallSetAccountAbsent addr] (NewStateCache 32 2 2))
                   (GetAccount addr) = Inr (None, False)"
    by (simp add: fresh_read_defs SetAccountAbsent_def heap_up.simps [of _ 0] GetAccount_def
          account_key_def)
  moreover have "bindE (calls [CallSetStorageAbsent addr inc loc] (NewStateCache 32 2 2))
                   (GetStorage addr inc loc) = Inr (None, False)"
    by (simp add: fresh_read_defs SetStorageAbsent_def heap_up.simps [of _ 0] GetStorage_def
          storage_key_def)
  moreover have "bindE (calls [CallSetCodeAbsent addr] (NewStateCache 32 2 2)) (GetCode addr)
                   = Inr (None, True)"
    by (simp add: fresh_read_defs SetCodeAbsent_def heap_up.simps [of _ 0] GetCode_def
          code_key_def)
  moreover have "bindE (NewStateCache 32 2 2) (GetAccount addr) = Inr (None, False)
                 \<and> bindE (NewStateCache 32 2 2) (GetStorage addr inc loc) = Inr (None, False)
                 \<and> bindE (NewStateCache 32 2 2) (GetCode addr) = Inr (None, True)"
    by (simp add: bindE_def NewStateCache_def GetCode_def GetAccount_def GetStorage_def
          get_def Let_def)
  moreover have "bindE (calls [CallSetAccountDelete [1]] (NewStateCache 32 2 2))
                   (GetAccount [1]) = Inr (None, False)"
    by code_simp
  moreover have "calls [CallSetAccountAbsent addr, CallSetAccountAbsent addr]
                   (NewStateCache 32 2 2)
                 = Inl (Explicit ''item must not be present in the cache before doing setRead'')"
    by (simp add: fresh_read_defs SetAccountAbsent_def heap_up.simps [of _ 0])
  moreover have "calls [CallSetAccountAbsent [1]] (NewStateCache 32 2 2)
     = Inr \<lparr>mem = [AccountCacheItem (go_copy Address_zero [1]) Account_zero 0 0 DeletedFlag],
          readWrites = [0], writes = [],
          items = [Some 0, None, None, None],
          readQueue_end = 1, writeQueue_start = 4,
          limitReads = 2, limitWrites = 2, sc_sequence = 0\<rparr>"
    by code_simp
  ultimately show ?thesis by blast
qed

text \<open>
  C8. The claim: each of the three lookups reports not found, with \<open>false\<close> as its second
  result, when the key is not in \<open>readWrites\<close>. The theorem evaluates the three lookups on
  the new cache, for every key: \<open>GetAccount\<close> and \<open>GetStorage\<close> return \<open>false\<close>,
  \<open>GetCode\<close> returns \<open>true\<close>.
\<close>

theorem GetCode_reports_found_on_a_miss:
  "bindE (NewStateCache 32 2 2) (GetAccount addr) = Inr (None, False)
   \<and> bindE (NewStateCache 32 2 2) (GetStorage addr inc loc) = Inr (None, False)
   \<and> bindE (NewStateCache 32 2 2) (GetCode addr) = Inr (None, True)"
  by (simp add: bindE_def NewStateCache_def GetCode_def GetAccount_def GetStorage_def get_def
        Let_def)

subsection \<open>A cache without a read budget\<close>




end
